theory Spec2Isabelle
  imports Complex_Main "HOL-Library.Stream" "HOL-Library.Multiset"
begin

section \<open>Restricted Boltzmann Machine of \<^verbatim>\<open>chap12_RBM/rbm.py\<close>\<close>

text \<open>
  The embedding follows the class \<^verbatim>\<open>RBM\<close> method by method. NumPy's float64 numbers are
  modelled by the real numbers (rounding, overflow, NaN and infinities are outside the
  model), its integer arrays by \<open>int\<close> lists, a 1-D array by a list and a 2-D array by the
  list of its rows. Exceptions are values of the type \<open>error\<close>; a method that may raise
  returns \<open>error + result\<close>. NumPy's global random state is passed explicitly.
\<close>

subsection \<open>Python values, exceptions, the random source\<close>




text \<open>Every exception of the module is a \<^verbatim>\<open>ValueError\<close> raised by the class itself (layer
  sizes, probabilities) or by NumPy (operand shapes, reshape), except the \<^verbatim>\<open>IndexError\<close> of
  \<^verbatim>\<open>data.shape[0]\<close> on a 0-dimensional array.\<close>

datatype error =
    ValueError_n_hidden
  | ValueError_n_observe
  | ValueError_probs
  | ValueError_shapes
  | IndexError_shape

text \<open>The random state is the supply of variates it is going to deliver: standard normal
  variates for \<^verbatim>\<open>np.random.normal\<close>, uniform variates for \<^verbatim>\<open>np.random.binomial\<close>, raw
  integers for \<^verbatim>\<open>np.random.shuffle\<close>. Every draw consumes the head of its supply.\<close>

record rng =
  normals :: "real stream"
  uniforms :: "real stream"
  integers :: "nat stream"

subsection \<open>Array operations\<close>

type_synonym vec = "real list"
type_synonym mat = "real list list"

definition ncols :: "'a list list \<Rightarrow> nat" where
  "ncols A = (case A of [] \<Rightarrow> 0 | r # _ \<Rightarrow> length r)"

definition col :: "nat \<Rightarrow> 'a list list \<Rightarrow> 'a list" where
  "col j A = map (\<lambda>r. r ! j) A"

text \<open>\<^verbatim>\<open>A.T\<close> of a 2-D array.\<close>

definition transpose_m :: "'a list list \<Rightarrow> 'a list list" where
  "transpose_m A = map (\<lambda>j. col j A) [0..<ncols A]"

definition dot1 :: "vec \<Rightarrow> vec \<Rightarrow> real" where
  "dot1 x y = sum_list (map2 (*) x y)"

text \<open>\<^verbatim>\<open>np.dot\<close> of a 1-D with a 2-D array and of two 2-D arrays; NumPy raises a
  \<^verbatim>\<open>ValueError\<close> when the inner dimensions differ.\<close>

definition vecmat :: "vec \<Rightarrow> mat \<Rightarrow> vec" where
  "vecmat v B = map (\<lambda>j. dot1 v (col j B)) [0..<ncols B]"

definition matmul :: "mat \<Rightarrow> mat \<Rightarrow> mat" where
  "matmul A B = map (\<lambda>r. vecmat r B) A"


definition dot :: "mat \<Rightarrow> mat \<Rightarrow> error + mat" where
  "dot A B = (if ncols A \<noteq> length B then Inl ValueError_shapes else Inr (matmul A B))"

text \<open>Elementwise arithmetic. The operands of these operations are results of the
  products above and the parameters, whose shapes agree (lemmas \<open>cd1_batch_spec\<close> and
  \<open>gibbs_step_ok\<close> below), so the truncation of \<open>map2\<close> never takes effect.\<close>

definition add_bias :: "mat \<Rightarrow> vec \<Rightarrow> mat" where
  "add_bias A b = map (\<lambda>r. map2 (+) r b) A"

definition mat_sub :: "mat \<Rightarrow> mat \<Rightarrow> mat" where
  "mat_sub A B = map2 (map2 (-)) A B"

definition mat_add :: "mat \<Rightarrow> mat \<Rightarrow> mat" where
  "mat_add A B = map2 (map2 (+)) A B"

text \<open>\<^verbatim>\<open>np.sum(A, axis=0)\<close>.\<close>

definition sum_axis0 :: "mat \<Rightarrow> vec" where
  "sum_axis0 A = map (\<lambda>j. sum_list (col j A)) [0..<ncols A]"

definition to_float :: "int list list \<Rightarrow> mat" where
  "to_float A = map (map real_of_int) A"

subsection \<open>Draws from the random source\<close>


text \<open>\<^verbatim>\<open>np.random.binomial(1, p)\<close> for an array \<open>p\<close>: one Bernoulli draw per entry, 1 when
  the uniform variate is below the probability, 0 otherwise.\<close>

fun binomial1 :: "real list \<Rightarrow> rng \<Rightarrow> int list \<times> rng" where
  "binomial1 [] g = ([], g)"
| "binomial1 (p # ps) g =
     (let x = (if shd (uniforms g) < p then 1 else 0);
          (xs, g') = binomial1 ps (g\<lparr>uniforms := stl (uniforms g)\<rparr>)
      in (x # xs, g'))"

fun binomial2 :: "mat \<Rightarrow> rng \<Rightarrow> int list list \<times> rng" where
  "binomial2 [] g = ([], g)"
| "binomial2 (ps # pss) g =
     (let (xs, g') = binomial1 ps g;
          (xss, g'') = binomial2 pss g'
      in (xs # xss, g''))"

text \<open>\<^verbatim>\<open>np.random.shuffle(x)\<close> permutes the rows of \<open>x\<close> in place (Fisher-Yates): for \<open>i\<close>
  from \<open>n - 1\<close> down to 1, row \<open>i\<close> is exchanged with row \<open>j\<close>, a random index in \<open>0..i\<close>.\<close>

definition swap_rows :: "nat \<Rightarrow> nat \<Rightarrow> 'a list \<Rightarrow> 'a list" where
  "swap_rows i j xs = xs[i := xs ! j, j := xs ! i]"

fun shuffle_from :: "nat \<Rightarrow> 'a list \<Rightarrow> nat stream \<Rightarrow> 'a list \<times> nat stream" where
  "shuffle_from 0 xs s = (xs, s)"
| "shuffle_from (Suc m) xs s =
     shuffle_from m (swap_rows (Suc m) (shd s mod (Suc m + 1)) xs) (stl s)"

definition shuffle :: "'a list \<Rightarrow> rng \<Rightarrow> 'a list \<times> rng" where
  "shuffle xs g =
     (let (ys, s) = shuffle_from (length xs - 1) xs (integers g)
      in (ys, g\<lparr>integers := s\<rparr>))"

subsection \<open>The model and its constructor\<close>

record rbm =
  n_hidden :: nat
  n_observe :: nat
  W :: mat
  Wv :: mat
  Wh :: mat
  b_h :: vec
  b_v :: vec


subsection \<open>Activation and binary sampling\<close>

text \<open>\<^verbatim>\<open>_sigmoid\<close>, applied entry by entry to an array.\<close>

definition sigmoid :: "real \<Rightarrow> real" where
  "sigmoid x = 1 / (1 + exp (- x))"

text \<open>\<^verbatim>\<open>_sample_binary\<close> is called with 1-D arrays (by \<^verbatim>\<open>sample\<close>) and with 2-D arrays (by
  \<^verbatim>\<open>train\<close>); \<open>sample_binary\<close> is the former and \<open>sample_binary2\<close> the latter.\<close>

definition sample_binary :: "vec \<Rightarrow> rng \<Rightarrow> error + int list \<times> rng" where
  "sample_binary probs g =
     (if list_ex (\<lambda>p. p < 0) probs \<or> list_ex (\<lambda>p. p > 1) probs then Inl ValueError_probs
      else Inr (binomial1 probs g))"

definition sample_binary2 :: "mat \<Rightarrow> rng \<Rightarrow> error + int list list \<times> rng" where
  "sample_binary2 probs g =
     (if list_ex (list_ex (\<lambda>p. p < 0)) probs \<or> list_ex (list_ex (\<lambda>p. p > 1)) probs
      then Inl ValueError_probs
      else Inr (binomial2 probs g))"

subsection \<open>Training\<close>

text \<open>The hyperparameters are local constants of \<^verbatim>\<open>train\<close>.\<close>

definition learning_rate :: real where "learning_rate = 1 / 10"
definition epochs :: nat where "epochs = 10"
definition batch_size :: nat where "batch_size = 100"

text \<open>The body of the inner loop of \<^verbatim>\<open>train\<close>: one CD-1 update from one batch.\<close>

definition scale_step :: "real \<Rightarrow> real" where
  "scale_step x = learning_rate * x / real batch_size"

definition cd1_batch :: "rbm \<Rightarrow> int list list \<Rightarrow> rng \<Rightarrow> error + rbm \<times> rng" where
  "cd1_batch r batch g =
     (let v0 = to_float batch in
      case dot v0 (W r) of Inl e \<Rightarrow> Inl e | Inr a0 \<Rightarrow>
      (let h0_prob = map (map sigmoid) (add_bias a0 (b_h r)) in
       case sample_binary2 h0_prob g of Inl e \<Rightarrow> Inl e | Inr (h0_sample, g1) \<Rightarrow>
       (case dot (to_float h0_sample) (transpose_m (W r)) of Inl e \<Rightarrow> Inl e | Inr a1 \<Rightarrow>
        (let v1_prob = map (map sigmoid) (add_bias a1 (b_v r)) in
         case sample_binary2 v1_prob g1 of Inl e \<Rightarrow> Inl e | Inr (v1_sample, g2) \<Rightarrow>
         (case dot (to_float v1_sample) (W r) of Inl e \<Rightarrow> Inl e | Inr a2 \<Rightarrow>
          (let h1_prob = map (map sigmoid) (add_bias a2 (b_h r)) in
           case dot (transpose_m v0) (to_float h0_sample) of Inl e \<Rightarrow> Inl e | Inr pos \<Rightarrow>
           (case dot (transpose_m (to_float v1_sample)) h1_prob of Inl e \<Rightarrow> Inl e | Inr neg \<Rightarrow>
            (let dW = mat_sub pos neg;
                 db_v = sum_axis0 (mat_sub v0 (to_float v1_sample));
                 db_h = sum_axis0 (mat_sub (to_float h0_sample) h1_prob)
             in Inr (r\<lparr>W := mat_add (W r) (map (map scale_step) dW),
                       b_v := map2 (+) (b_v r) (map scale_step db_v),
                       b_h := map2 (+) (b_h r) (map scale_step db_h)\<rparr>, g2)))))))))"

text \<open>\<^verbatim>\<open>for i in range(0, n_samples, batch_size)\<close> with the slice
  \<^verbatim>\<open>data_flat[i:i + batch_size]\<close>.\<close>

function batch_loop :: "nat \<Rightarrow> nat \<Rightarrow> int list list \<Rightarrow> rbm \<Rightarrow> rng \<Rightarrow> error + rbm \<times> rng" where
  "batch_loop i n_samples data_flat r g =
     (if i < n_samples then
        (case cd1_batch r (take batch_size (drop i data_flat)) g of
           Inl e \<Rightarrow> Inl e
         | Inr (r', g') \<Rightarrow> batch_loop (i + batch_size) n_samples data_flat r' g')
      else Inr (r, g))"
  by pat_completeness auto
termination
  by (relation "measure (\<lambda>(i, n_samples, data_flat, r, g). n_samples - i)")
     (auto simp: batch_size_def)

text \<open>The equation of \<open>batch_loop\<close> is unfolded by hand, one iteration at a time.\<close>

declare batch_loop.simps [simp del]

text \<open>Arrays live in a store: an address holds the elements of an array in C order,
  grouped by the leading index (one block per sample). An \<open>ndarray\<close> is a view: an address
  and a shape. \<^verbatim>\<open>data.reshape(data.shape[0], -1)\<close> of a C-contiguous array is a view of
  the same memory, so \<^verbatim>\<open>data_flat\<close> has the address of \<^verbatim>\<open>data\<close>.\<close>

type_synonym store = "nat \<Rightarrow> int list list"

record ndarray =
  addr :: nat
  shape :: "nat list"

definition reshape_rows :: "ndarray \<Rightarrow> error + ndarray" where
  "reshape_rows a =
     (case shape a of
        [] \<Rightarrow> Inl IndexError_shape
      | n # rest \<Rightarrow>
          if n = 0 then Inl ValueError_shapes
          else Inr (a\<lparr>shape := [n, prod_list rest]\<rparr>))"

text \<open>\<^verbatim>\<open>for epoch in range(epochs)\<close>: shuffle \<^verbatim>\<open>data_flat\<close> in place, then run the batches.\<close>

fun epoch_loop :: "nat \<Rightarrow> ndarray \<Rightarrow> nat \<Rightarrow> rbm \<Rightarrow> store \<Rightarrow> rng \<Rightarrow> error + rbm \<times> store \<times> rng" where
  "epoch_loop 0 data_flat n_samples r st g = Inr (r, st, g)"
| "epoch_loop (Suc k) data_flat n_samples r st g =
     (let (rows, g1) = shuffle (st (addr data_flat)) g;
          st1 = st(addr data_flat := rows)
      in case batch_loop 0 n_samples (st1 (addr data_flat)) r g1 of
           Inl e \<Rightarrow> Inl e
         | Inr (r', g2) \<Rightarrow> epoch_loop k data_flat n_samples r' st1 g2)"

definition train :: "rbm \<Rightarrow> store \<Rightarrow> ndarray \<Rightarrow> rng \<Rightarrow> error + rbm \<times> store \<times> rng" where
  "train r st data g =
     (case reshape_rows data of
        Inl e \<Rightarrow> Inl e
      | Inr data_flat \<Rightarrow> epoch_loop epochs data_flat (hd (shape data_flat)) r st g)"

subsection \<open>Sampling\<close>





section \<open>Notions used by the statements\<close>


text \<open>A 2-D array of shape \<open>(m, n)\<close>, a 0/1 array, and the shape invariant of the model:
  \<open>W\<close> of shape \<open>(n_observe, n_hidden)\<close>, \<open>b_v\<close> of length \<open>n_observe\<close>, \<open>b_h\<close> of length
  \<open>n_hidden\<close>, both sizes positive.\<close>

definition is_mat :: "nat \<Rightarrow> nat \<Rightarrow> 'a list list \<Rightarrow> bool" where
  "is_mat m n A = (length A = m \<and> list_all (\<lambda>row. length row = n) A)"

definition binary :: "int list \<Rightarrow> bool" where
  "binary xs = list_all (\<lambda>x. x = 0 \<or> x = 1) xs"

definition wf_rbm :: "rbm \<Rightarrow> bool" where
  "wf_rbm r =
     (0 < n_hidden r \<and> 0 < n_observe r \<and> is_mat (n_observe r) (n_hidden r) (W r)
      \<and> length (b_v r) = n_observe r \<and> length (b_h r) = n_hidden r)"

text \<open>A random source for the examples.\<close>

definition rng0 :: rng where
  "rng0 = \<lparr>normals = sconst 0, uniforms = sconst (1 / 2), integers = sconst 0\<rparr>"

text \<open>The model \<^verbatim>\<open>RBM(2, 4)\<close> built from \<open>rng0\<close>, and a model with 784 visible units.\<close>

definition rbm_2_4 :: rbm where
  "rbm_2_4 = \<lparr>n_hidden = 2, n_observe = 4, W = [[0, 0], [0, 0], [0, 0], [0, 0]],
               Wv = [[0, 0, 0, 0]], Wh = [[0, 0]], b_h = [0, 0], b_v = [0, 0, 0, 0]\<rparr>"


text \<open>The quantities of one batch update as the specification writes them, entry by entry:
  the conditional probabilities \<open>\<sigma>(v\<cdot>W + b_h)\<close> and \<open>\<sigma>(h\<cdot>W\<^sup>T + b_v)\<close> and the three gradients.\<close>

definition tabulate2 :: "nat \<Rightarrow> nat \<Rightarrow> (nat \<Rightarrow> nat \<Rightarrow> 'a) \<Rightarrow> 'a list list" where
  "tabulate2 m n f = map (\<lambda>k. map (\<lambda>j. f k j) [0..<n]) [0..<m]"

definition spec_hidden_prob :: "rbm \<Rightarrow> mat \<Rightarrow> nat \<Rightarrow> nat \<Rightarrow> real" where
  "spec_hidden_prob r v k j = sigmoid ((\<Sum>i<n_observe r. v ! k ! i * W r ! i ! j) + b_h r ! j)"

definition spec_visible_prob :: "rbm \<Rightarrow> mat \<Rightarrow> nat \<Rightarrow> nat \<Rightarrow> real" where
  "spec_visible_prob r h k i = sigmoid ((\<Sum>j<n_hidden r. h ! k ! j * W r ! i ! j) + b_v r ! i)"

definition spec_dW :: "mat \<Rightarrow> mat \<Rightarrow> mat \<Rightarrow> (nat \<Rightarrow> nat \<Rightarrow> real) \<Rightarrow> nat \<Rightarrow> nat \<Rightarrow> real" where
  "spec_dW v0 h0 v1 h1 i j =
     (\<Sum>k<length v0. v0 ! k ! i * h0 ! k ! j) - (\<Sum>k<length v0. v1 ! k ! i * h1 k j)"

definition spec_db_v :: "mat \<Rightarrow> mat \<Rightarrow> nat \<Rightarrow> real" where
  "spec_db_v v0 v1 i = (\<Sum>k<length v0. v0 ! k ! i - v1 ! k ! i)"

definition spec_db_h :: "mat \<Rightarrow> (nat \<Rightarrow> nat \<Rightarrow> real) \<Rightarrow> nat \<Rightarrow> real" where
  "spec_db_h h0 h1 j = (\<Sum>k<length h0. h0 ! k ! j - h1 k j)"

text \<open>The buffer of the data after \<open>k\<close> epochs: \<open>k\<close> shuffles in a row.\<close>

fun shuffle_epochs :: "nat \<Rightarrow> 'a list \<Rightarrow> nat stream \<Rightarrow> 'a list \<times> nat stream" where
  "shuffle_epochs 0 xs s = (xs, s)"
| "shuffle_epochs (Suc k) xs s =
     (case shuffle_from (length xs - 1) xs s of (ys, s') \<Rightarrow> shuffle_epochs k ys s')"

text \<open>A C-contiguous array in the store: one block per leading index, each holding the
  elements of the trailing dimensions.\<close>

definition wf_data :: "store \<Rightarrow> ndarray \<Rightarrow> bool" where
  "wf_data st d =
     (shape d \<noteq> [] \<and> is_mat (hd (shape d)) (prod_list (tl (shape d))) (st (addr d)))"

text \<open>The caller's view of an array after a call of \<^verbatim>\<open>train\<close>, and a small data set: three
  samples of shape \<open>(1, 1)\<close> at address 0, for a model with one visible and one hidden unit.\<close>

definition final_buffer :: "error + rbm \<times> store \<times> rng \<Rightarrow> nat \<Rightarrow> int list list option" where
  "final_buffer res a = (case res of Inl e \<Rightarrow> None | Inr (r, st, g) \<Rightarrow> Some (st a))"

definition rbm_1_1 :: rbm where
  "rbm_1_1 = \<lparr>n_hidden = 1, n_observe = 1, W = [[0]], Wv = [[0]], Wh = [[0]],
               b_h = [0], b_v = [0]\<rparr>"

definition data_3 :: ndarray where
  "data_3 = \<lparr>addr = 0, shape = [3, 1, 1]\<rparr>"

definition store_3 :: store where
  "store_3 = (\<lambda>a. [])(0 := [[1], [0], [0]])"

section \<open>Properties\<close>

subsection \<open>The sigmoid\<close>

lemma sigmoid_pos: "0 < sigmoid x"
  by (simp add: sigmoid_def add_pos_pos)

lemma sigmoid_less_one: "sigmoid x < 1"
  by (simp add: sigmoid_def add_pos_pos)







subsection \<open>The constructor\<close>








subsection \<open>Shapes\<close>

lemma is_mat_nth: "is_mat m n A \<Longrightarrow> i < m \<Longrightarrow> length (A ! i) = n"
  by (simp add: is_mat_def list_all_length)

lemma is_mat_iff: "is_mat m n A = (length A = m \<and> (\<forall>i<m. length (A ! i) = n))"
  by (auto simp: is_mat_def list_all_length)

lemma is_mat_ncols: "is_mat m n A \<Longrightarrow> 0 < m \<Longrightarrow> ncols A = n"
  by (cases A) (auto simp: is_mat_def ncols_def)

lemma length_col [simp]: "length (col j A) = length A"
  by (simp add: col_def)

lemma nth_col [simp]: "i < length A \<Longrightarrow> col j A ! i = A ! i ! j"
  by (simp add: col_def)

lemma is_mat_transpose: "is_mat m n A \<Longrightarrow> 0 < m \<Longrightarrow> is_mat n m (transpose_m A)"
  using is_mat_ncols [of m n A] by (simp add: is_mat_iff transpose_m_def)

lemma transpose_nth: "is_mat m n A \<Longrightarrow> 0 < m \<Longrightarrow> j < n \<Longrightarrow> i < m \<Longrightarrow> transpose_m A ! j ! i = A ! i ! j"
  using is_mat_ncols [of m n A] by (simp add: transpose_m_def is_mat_iff)

lemma length_vecmat: "is_mat k n B \<Longrightarrow> 0 < k \<Longrightarrow> length (vecmat v B) = n"
  by (simp add: vecmat_def is_mat_ncols)

lemma is_mat_matmul: "is_mat k n B \<Longrightarrow> 0 < k \<Longrightarrow> is_mat (length A) n (matmul A B)"
  using length_vecmat [of k n B] by (simp add: is_mat_def matmul_def list_all_length)

lemma dot_ok: "is_mat m k A \<Longrightarrow> 0 < m \<Longrightarrow> is_mat k n B \<Longrightarrow> dot A B = Inr (matmul A B)"
  by (simp add: dot_def is_mat_ncols) (simp add: is_mat_def)


lemma is_mat_add_bias: "is_mat m n A \<Longrightarrow> length b = n \<Longrightarrow> is_mat m n (add_bias A b)"
  by (simp add: is_mat_iff add_bias_def)

lemma is_mat_map: "is_mat m n A \<Longrightarrow> is_mat m n (map (map f) A)"
  by (simp add: is_mat_iff)

lemma is_mat_to_float: "is_mat m n A \<Longrightarrow> is_mat m n (to_float A)"
  by (simp add: to_float_def is_mat_map)

lemma is_mat_sub: "is_mat m n A \<Longrightarrow> is_mat m n B \<Longrightarrow> is_mat m n (mat_sub A B)"
  by (simp add: is_mat_iff mat_sub_def)

lemma is_mat_add: "is_mat m n A \<Longrightarrow> is_mat m n B \<Longrightarrow> is_mat m n (mat_add A B)"
  by (simp add: is_mat_iff mat_add_def)

lemma length_sum_axis0: "is_mat m n A \<Longrightarrow> 0 < m \<Longrightarrow> length (sum_axis0 A) = n"
  by (simp add: sum_axis0_def is_mat_ncols)

subsection \<open>Bernoulli draws\<close>

lemma binomial1_length [simp]: "length (fst (binomial1 ps g)) = length ps"
  by (induction ps arbitrary: g) (simp_all add: Let_def case_prod_beta)

lemma binomial1_binary [simp]: "binary (fst (binomial1 ps g))"
  by (induction ps arbitrary: g) (simp_all add: binary_def Let_def case_prod_beta)

lemma binomial1_rng: "snd (binomial1 ps g) = g\<lparr>uniforms := sdrop (length ps) (uniforms g)\<rparr>"
  by (induction ps arbitrary: g) (simp_all add: Let_def case_prod_beta)

lemma binomial2_length [simp]: "length (fst (binomial2 P g)) = length P"
  by (induction P arbitrary: g) (simp_all add: Let_def case_prod_beta)

lemma binomial2_row_length:
  "i < length P \<Longrightarrow> length (fst (binomial2 P g) ! i) = length (P ! i)"
proof (induction P arbitrary: g i)
  case Nil
  then show ?case by simp
next
  case (Cons ps P)
  then show ?case
    by (cases i) (simp_all add: Let_def case_prod_beta)
qed

lemma binomial2_binary: "list_all binary (fst (binomial2 P g))"
  by (induction P arbitrary: g) (simp_all add: Let_def case_prod_beta)

lemma binomial2_rng:
  "snd (binomial2 P g) = g\<lparr>uniforms := sdrop (sum_list (map length P)) (uniforms g)\<rparr>"
  by (induction P arbitrary: g) (simp_all add: Let_def case_prod_beta binomial1_rng add.commute)

lemma is_mat_binomial2: "is_mat m n P \<Longrightarrow> is_mat m n (fst (binomial2 P g))"
  by (simp add: is_mat_iff binomial2_row_length)

lemma sum_list_lengths: "is_mat m n P \<Longrightarrow> sum_list (map length P) = m * n"
  by (induction P arbitrary: m) (auto simp: is_mat_def)

subsection \<open>The binary sampler\<close>

lemma sample_binary_raises:
  "(sample_binary probs g = Inl e) = (e = ValueError_probs \<and> (\<exists>p\<in>set probs. p < 0 \<or> 1 < p))"
  by (auto simp: sample_binary_def list_ex_iff)

lemma sample_binary_returns:
  "\<forall>p\<in>set probs. 0 \<le> p \<and> p \<le> 1 \<Longrightarrow> sample_binary probs g = Inr (binomial1 probs g)"
  by (auto simp: sample_binary_def list_ex_iff)

lemma sample_binary2_raises:
  "(sample_binary2 probs g = Inl e) =
     (e = ValueError_probs \<and> (\<exists>row\<in>set probs. \<exists>p\<in>set row. p < 0 \<or> 1 < p))"
  by (auto simp: sample_binary2_def list_ex_iff)

lemma sample_binary2_returns:
  "\<forall>row\<in>set probs. \<forall>p\<in>set row. 0 \<le> p \<and> p \<le> 1 \<Longrightarrow>
     sample_binary2 probs g = Inr (binomial2 probs g)"
  by (fastforce simp: sample_binary2_def list_ex_iff)

text \<open>
  Claim C6. The binary sampler raises (a \<^verbatim>\<open>ValueError\<close>) if and only if some entry of its
  argument is below 0 or above 1; when every entry lies in \<open>[0, 1]\<close> it returns an array of
  the same shape with entries 0 or 1. Stated for the 1-D and the 2-D arrays the program
  passes.
\<close>

theorem sample_binary_raises_iff_out_of_range:
  "((\<exists>e. sample_binary probs g = Inl e) = (\<exists>p\<in>set probs. p < 0 \<or> 1 < p))
   \<and> (\<forall>e. sample_binary probs g = Inl e \<longrightarrow> e = ValueError_probs)
   \<and> ((\<forall>p\<in>set probs. 0 \<le> p \<and> p \<le> 1) \<longrightarrow>
        (\<exists>xs g'. sample_binary probs g = Inr (xs, g') \<and> length xs = length probs
           \<and> (\<forall>x\<in>set xs. x = 0 \<or> x = 1)))
   \<and> ((\<exists>e. sample_binary2 probs2 g = Inl e) = (\<exists>row\<in>set probs2. \<exists>p\<in>set row. p < 0 \<or> 1 < p))
   \<and> (\<forall>e. sample_binary2 probs2 g = Inl e \<longrightarrow> e = ValueError_probs)
   \<and> ((\<forall>row\<in>set probs2. \<forall>p\<in>set row. 0 \<le> p \<and> p \<le> 1) \<longrightarrow>
        (\<exists>xss g'. sample_binary2 probs2 g = Inr (xss, g') \<and> length xss = length probs2
           \<and> (\<forall>i<length probs2. length (xss ! i) = length (probs2 ! i))
           \<and> (\<forall>xs\<in>set xss. \<forall>x\<in>set xs. x = 0 \<or> x = 1)))"
proof (intro conjI impI)
  show "(\<exists>e. sample_binary probs g = Inl e) = (\<exists>p\<in>set probs. p < 0 \<or> 1 < p)"
    by (simp add: sample_binary_raises)
  show "(\<exists>e. sample_binary2 probs2 g = Inl e) = (\<exists>row\<in>set probs2. \<exists>p\<in>set row. p < 0 \<or> 1 < p)"
    by (simp add: sample_binary2_raises)
  show "\<forall>e. sample_binary probs g = Inl e \<longrightarrow> e = ValueError_probs"
    by (simp add: sample_binary_raises)
  show "\<forall>e. sample_binary2 probs2 g = Inl e \<longrightarrow> e = ValueError_probs"
    by (simp add: sample_binary2_raises)
next
  assume ok: "\<forall>p\<in>set probs. 0 \<le> p \<and> p \<le> 1"
  have "binary (fst (binomial1 probs g))" by simp
  then have "\<forall>x\<in>set (fst (binomial1 probs g)). x = 0 \<or> x = 1"
    by (simp add: binary_def list_all_iff)
  then show "\<exists>xs g'. sample_binary probs g = Inr (xs, g') \<and> length xs = length probs
           \<and> (\<forall>x\<in>set xs. x = 0 \<or> x = 1)"
    using sample_binary_returns [OF ok, of g] binomial1_length [of probs g]
    by (cases "binomial1 probs g") auto
next
  assume ok: "\<forall>row\<in>set probs2. \<forall>p\<in>set row. 0 \<le> p \<and> p \<le> 1"
  have "list_all binary (fst (binomial2 probs2 g))" by (rule binomial2_binary)
  then have "\<forall>xs\<in>set (fst (binomial2 probs2 g)). \<forall>x\<in>set xs. x = 0 \<or> x = 1"
    by (simp add: binary_def list_all_iff)
  then show "\<exists>xss g'. sample_binary2 probs2 g = Inr (xss, g') \<and> length xss = length probs2
           \<and> (\<forall>i<length probs2. length (xss ! i) = length (probs2 ! i))
           \<and> (\<forall>xs\<in>set xss. \<forall>x\<in>set xs. x = 0 \<or> x = 1)"
    using sample_binary2_returns [OF ok, of g] binomial2_length [of probs2 g]
      binomial2_row_length [of _ probs2 g]
    by (cases "binomial2 probs2 g") auto
qed

theorem sample_binary_raises_iff_out_of_range_witness:
  "sample_binary [3 / 2] rng0 = Inl ValueError_probs
   \<and> sample_binary2 [[1 / 2, - (1 / 10)]] rng0 = Inl ValueError_probs
   \<and> (\<exists>xs g'. sample_binary [0, 1 / 4, 1] rng0 = Inr (xs, g') \<and> length xs = 3)
   \<and> (\<exists>xss g'. sample_binary2 [[0, 1], [1 / 4, 3 / 4]] rng0 = Inr (xss, g') \<and> length xss = 2)"
proof -
  have a: "\<forall>p\<in>set [0, 1 / 4, 1 :: real]. 0 \<le> p \<and> p \<le> 1" by simp
  have b: "\<forall>row\<in>set [[0, 1 :: real], [1 / 4, 3 / 4]]. \<forall>p\<in>set row. 0 \<le> p \<and> p \<le> 1" by simp
  have c: "\<exists>p\<in>set [3 / 2 :: real]. p < 0 \<or> 1 < p"
    "\<exists>row\<in>set [[1 / 2, - (1 / 10) :: real]]. \<exists>p\<in>set row. p < 0 \<or> 1 < p"
    unfolding list_ex_iff [symmetric] by simp_all
  have 1: "sample_binary [3 / 2] rng0 = Inl ValueError_probs
      \<and> sample_binary2 [[1 / 2, - (1 / 10)]] rng0 = Inl ValueError_probs"
    using sample_binary_raises_iff_out_of_range [of "[3 / 2]" rng0 "[[1 / 2, - (1 / 10)]]"] c
    by blast
  have 2: "(\<exists>xs g'. sample_binary [0, 1 / 4, 1] rng0 = Inr (xs, g') \<and> length xs = 3)
      \<and> (\<exists>xss g'. sample_binary2 [[0, 1], [1 / 4, 3 / 4]] rng0 = Inr (xss, g') \<and> length xss = 2)"
    using sample_binary_raises_iff_out_of_range [of "[0, 1 / 4, 1]" rng0 "[[0, 1], [1 / 4, 3 / 4]]"] a b
    by auto
  from 1 2 show ?thesis by blast
qed

subsection \<open>The Gibbs chain\<close>


lemma wf_rbm_W: "wf_rbm r \<Longrightarrow> is_mat (n_observe r) (n_hidden r) (W r)"
  by (simp add: wf_rbm_def)

lemma wf_rbm_WT: "wf_rbm r \<Longrightarrow> is_mat (n_hidden r) (n_observe r) (transpose_m (W r))"
  by (simp add: wf_rbm_def is_mat_transpose)





lemma wf_rbm_2_4: "wf_rbm rbm_2_4"
  by (simp add: wf_rbm_def rbm_2_4_def is_mat_def)






subsection \<open>Entries of the array operations\<close>

lemma dot1_sum: "length x = k \<Longrightarrow> length y = k \<Longrightarrow> dot1 x y = (\<Sum>i<k. x ! i * y ! i)"
  by (simp add: dot1_def sum_list_sum_nth atLeast0LessThan)

lemma vecmat_nth:
  assumes "length v = k" "is_mat k n B" "0 < k" "j < n"
  shows "vecmat v B ! j = (\<Sum>i<k. v ! i * B ! i ! j)"
proof -
  have "ncols B = n" using assms by (simp add: is_mat_ncols)
  then have "vecmat v B ! j = dot1 v (col j B)"
    using assms by (simp add: vecmat_def)
  also have "\<dots> = (\<Sum>i<k. v ! i * col j B ! i)"
    using assms by (intro dot1_sum) (simp_all add: is_mat_def)
  also have "\<dots> = (\<Sum>i<k. v ! i * B ! i ! j)"
    using assms by (intro sum.cong) (simp_all add: is_mat_def)
  finally show ?thesis .
qed

lemma matmul_nth:
  assumes "is_mat m k A" "is_mat k n B" "0 < k" "a < m" "j < n"
  shows "matmul A B ! a ! j = (\<Sum>i<k. A ! a ! i * B ! i ! j)"
proof -
  have "matmul A B ! a = vecmat (A ! a) B"
    using assms by (simp add: matmul_def is_mat_def)
  moreover have "length (A ! a) = k"
    using assms by (simp add: is_mat_nth)
  ultimately show ?thesis
    using vecmat_nth [of "A ! a" k n B j] assms by simp
qed

lemma tabulate2_eqI:
  assumes "is_mat m n A" "\<And>k j. k < m \<Longrightarrow> j < n \<Longrightarrow> A ! k ! j = f k j"
  shows "A = tabulate2 m n f"
proof (rule nth_equalityI)
  show "length A = length (tabulate2 m n f)"
    using assms(1) by (simp add: tabulate2_def is_mat_def)
next
  fix k assume "k < length A"
  then have k: "k < m" using assms(1) by (simp add: is_mat_def)
  then have "length (A ! k) = n" using assms(1) by (simp add: is_mat_nth)
  then show "A ! k = tabulate2 m n f ! k"
    using k assms(2) by (intro nth_equalityI) (simp_all add: tabulate2_def)
qed

lemma add_bias_nth:
  "is_mat m n A \<Longrightarrow> length b = n \<Longrightarrow> k < m \<Longrightarrow> j < n \<Longrightarrow> add_bias A b ! k ! j = A ! k ! j + b ! j"
  by (simp add: add_bias_def is_mat_iff)

lemma to_float_nth:
  "is_mat m n A \<Longrightarrow> k < m \<Longrightarrow> j < n \<Longrightarrow> to_float A ! k ! j = real_of_int (A ! k ! j)"
  by (simp add: to_float_def is_mat_iff)

lemma mat_sub_nth:
  "is_mat m n A \<Longrightarrow> is_mat m n B \<Longrightarrow> k < m \<Longrightarrow> j < n \<Longrightarrow> mat_sub A B ! k ! j = A ! k ! j - B ! k ! j"
  by (simp add: mat_sub_def is_mat_iff)

lemma mat_add_nth:
  "is_mat m n A \<Longrightarrow> is_mat m n B \<Longrightarrow> k < m \<Longrightarrow> j < n \<Longrightarrow> mat_add A B ! k ! j = A ! k ! j + B ! k ! j"
  by (simp add: mat_add_def is_mat_iff)

lemma sum_axis0_nth:
  assumes "is_mat m n A" "0 < m" "j < n"
  shows "sum_axis0 A ! j = (\<Sum>k<m. A ! k ! j)"
proof -
  have "ncols A = n" using assms by (simp add: is_mat_ncols)
  then have "sum_axis0 A ! j = sum_list (col j A)"
    using assms by (simp add: sum_axis0_def)
  also have "\<dots> = (\<Sum>k<m. col j A ! k)"
    using assms by (simp add: sum_list_sum_nth atLeast0LessThan is_mat_def)
  also have "\<dots> = (\<Sum>k<m. A ! k ! j)"
    using assms by (intro sum.cong) (simp_all add: is_mat_def)
  finally show ?thesis .
qed

lemma hidden_prob_eq:
  assumes wf: "wf_rbm r" and v: "is_mat m (n_observe r) v" and m: "0 < m"
  shows "map (map sigmoid) (add_bias (matmul v (W r)) (b_h r))
           = tabulate2 m (n_hidden r) (spec_hidden_prob r v)"
proof (rule tabulate2_eqI)
  have pos: "0 < n_observe r" "length (b_h r) = n_hidden r"
    using wf by (simp_all add: wf_rbm_def)
  have mm: "is_mat m (n_hidden r) (matmul v (W r))"
    using is_mat_matmul [OF wf_rbm_W [OF wf] pos(1), of v] v by (simp add: is_mat_def)
  then have ab: "is_mat m (n_hidden r) (add_bias (matmul v (W r)) (b_h r))"
    by (simp add: is_mat_add_bias pos)
  then show "is_mat m (n_hidden r) (map (map sigmoid) (add_bias (matmul v (W r)) (b_h r)))"
    by (rule is_mat_map)
  fix k j assume kj: "k < m" "j < n_hidden r"
  have "map (map sigmoid) (add_bias (matmul v (W r)) (b_h r)) ! k ! j
          = sigmoid (add_bias (matmul v (W r)) (b_h r) ! k ! j)"
    using ab kj by (simp add: is_mat_iff)
  also have "\<dots> = sigmoid (matmul v (W r) ! k ! j + b_h r ! j)"
    using add_bias_nth [OF mm pos(2) kj] by simp
  also have "\<dots> = spec_hidden_prob r v k j"
    using matmul_nth [OF v wf_rbm_W [OF wf] pos(1) kj] by (simp add: spec_hidden_prob_def)
  finally show "map (map sigmoid) (add_bias (matmul v (W r)) (b_h r)) ! k ! j
          = spec_hidden_prob r v k j" .
qed

lemma visible_prob_eq:
  assumes wf: "wf_rbm r" and h: "is_mat m (n_hidden r) h" and m: "0 < m"
  shows "map (map sigmoid) (add_bias (matmul h (transpose_m (W r))) (b_v r))
           = tabulate2 m (n_observe r) (spec_visible_prob r h)"
proof (rule tabulate2_eqI)
  have pos: "0 < n_hidden r" "0 < n_observe r" "length (b_v r) = n_observe r"
    using wf by (simp_all add: wf_rbm_def)
  have mm: "is_mat m (n_observe r) (matmul h (transpose_m (W r)))"
    using is_mat_matmul [OF wf_rbm_WT [OF wf] pos(1), of h] h by (simp add: is_mat_def)
  then have ab: "is_mat m (n_observe r) (add_bias (matmul h (transpose_m (W r))) (b_v r))"
    by (simp add: is_mat_add_bias pos)
  then show "is_mat m (n_observe r) (map (map sigmoid) (add_bias (matmul h (transpose_m (W r))) (b_v r)))"
    by (rule is_mat_map)
  fix k i assume ki: "k < m" "i < n_observe r"
  have "map (map sigmoid) (add_bias (matmul h (transpose_m (W r))) (b_v r)) ! k ! i
          = sigmoid (add_bias (matmul h (transpose_m (W r))) (b_v r) ! k ! i)"
    using ab ki by (simp add: is_mat_iff)
  also have "\<dots> = sigmoid (matmul h (transpose_m (W r)) ! k ! i + b_v r ! i)"
    using add_bias_nth [OF mm pos(3) ki] by simp
  also have "matmul h (transpose_m (W r)) ! k ! i = (\<Sum>j<n_hidden r. h ! k ! j * transpose_m (W r) ! j ! i)"
    by (rule matmul_nth [OF h wf_rbm_WT [OF wf] pos(1) ki])
  also have "\<dots> = (\<Sum>j<n_hidden r. h ! k ! j * W r ! i ! j)"
    using transpose_nth [OF wf_rbm_W [OF wf] pos(2) _ ki(2)] by (intro sum.cong) simp_all
  finally show "map (map sigmoid) (add_bias (matmul h (transpose_m (W r))) (b_v r)) ! k ! i
          = spec_visible_prob r h k i"
    by (simp add: spec_visible_prob_def)
qed

lemma tabulate2_nth: "k < m \<Longrightarrow> j < n \<Longrightarrow> tabulate2 m n f ! k ! j = f k j"
  by (simp add: tabulate2_def)

lemma is_mat_tabulate2: "is_mat m n (tabulate2 m n f)"
  by (simp add: tabulate2_def is_mat_def list_all_iff)

lemma tabulate2_sigmoid_probs:
  "\<forall>row\<in>set (tabulate2 m n (\<lambda>k j. sigmoid (f k j))). \<forall>p\<in>set row. 0 \<le> p \<and> p \<le> 1"
  using sigmoid_pos sigmoid_less_one by (auto simp: tabulate2_def intro: less_imp_le)

lemma gradient_nth:
  assumes a: "is_mat m p A" and b: "is_mat m q B" and m: "0 < m" and i: "i < p" and j: "j < q"
  shows "matmul (transpose_m A) B ! i ! j = (\<Sum>k<m. A ! k ! i * B ! k ! j)"
proof -
  have "matmul (transpose_m A) B ! i ! j = (\<Sum>k<m. transpose_m A ! i ! k * B ! k ! j)"
    by (rule matmul_nth [OF is_mat_transpose [OF a m] b m i j])
  also have "\<dots> = (\<Sum>k<m. A ! k ! i * B ! k ! j)"
    using transpose_nth [OF a m i] by (intro sum.cong) simp_all
  finally show ?thesis .
qed

subsection \<open>One batch update\<close>

lemma binomial2_entries:
  "\<forall>xs\<in>set (fst (binomial2 P g)). \<forall>x\<in>set xs. x = 0 \<or> x = 1"
  using binomial2_binary [of P g] by (simp add: binary_def list_all_iff)

lemma cd1_batch_spec:
  assumes wf: "wf_rbm r" and bt: "is_mat m (n_observe r) batch" and m: "0 < m"
  obtains h0 g1 v1 g2 r' where
    "sample_binary2 (tabulate2 m (n_hidden r) (spec_hidden_prob r (to_float batch))) g = Inr (h0, g1)"
    "is_mat m (n_hidden r) h0"
    "sample_binary2 (tabulate2 m (n_observe r) (spec_visible_prob r (to_float h0))) g1 = Inr (v1, g2)"
    "is_mat m (n_observe r) v1"
    "cd1_batch r batch g = Inr (r', g2)"
    "g2 = g\<lparr>uniforms := sdrop (m * n_observe r) (sdrop (m * n_hidden r) (uniforms g))\<rparr>"
    "n_hidden r' = n_hidden r" "n_observe r' = n_observe r" "Wv r' = Wv r" "Wh r' = Wh r"
    "wf_rbm r'"
    "\<And>i j. i < n_observe r \<Longrightarrow> j < n_hidden r \<Longrightarrow>
       W r' ! i ! j = W r ! i ! j
         + scale_step (spec_dW (to_float batch) (to_float h0) (to_float v1)
                          (spec_hidden_prob r (to_float v1)) i j)"
    "\<And>i. i < n_observe r \<Longrightarrow>
       b_v r' ! i = b_v r ! i + scale_step (spec_db_v (to_float batch) (to_float v1) i)"
    "\<And>j. j < n_hidden r \<Longrightarrow>
       b_h r' ! j = b_h r ! j
         + scale_step (spec_db_h (to_float h0) (spec_hidden_prob r (to_float v1)) j)"
proof -
  let ?nv = "n_observe r" and ?nh = "n_hidden r"
  let ?v0 = "to_float batch"
  let ?P0 = "tabulate2 m ?nh (spec_hidden_prob r ?v0)"
  let ?h0 = "fst (binomial2 ?P0 g)" and ?g1 = "snd (binomial2 ?P0 g)"
  let ?P1 = "tabulate2 m ?nv (spec_visible_prob r (to_float ?h0))"
  let ?v1 = "fst (binomial2 ?P1 ?g1)" and ?g2 = "snd (binomial2 ?P1 ?g1)"
  let ?h1 = "tabulate2 m ?nh (spec_hidden_prob r (to_float ?v1))"
  let ?pos = "matmul (transpose_m ?v0) (to_float ?h0)"
  let ?neg = "matmul (transpose_m (to_float ?v1)) ?h1"
  let ?dW = "mat_sub ?pos ?neg"
  let ?dbv = "sum_axis0 (mat_sub ?v0 (to_float ?v1))"
  let ?dbh = "sum_axis0 (mat_sub (to_float ?h0) ?h1)"
  let ?r' = "r\<lparr>W := mat_add (W r) (map (map scale_step) ?dW),
               b_v := map2 (+) (b_v r) (map scale_step ?dbv),
               b_h := map2 (+) (b_h r) (map scale_step ?dbh)\<rparr>"
  have pos: "0 < ?nh" "0 < ?nv" "length (b_v r) = ?nv" "length (b_h r) = ?nh"
    using wf by (simp_all add: wf_rbm_def)
  note Wm = wf_rbm_W [OF wf] and WTm = wf_rbm_WT [OF wf]
  have v0: "is_mat m ?nv ?v0" by (rule is_mat_to_float [OF bt])
  have d0: "dot ?v0 (W r) = Inr (matmul ?v0 (W r))"
    by (rule dot_ok [OF v0 m Wm])
  note p0 = hidden_prob_eq [OF wf v0 m]
  have s0: "sample_binary2 ?P0 g = Inr (?h0, ?g1)"
    by (simp add: spec_hidden_prob_def [abs_def] sample_binary2_returns [OF tabulate2_sigmoid_probs])
  have h0: "is_mat m ?nh ?h0" by (rule is_mat_binomial2 [OF is_mat_tabulate2])
  have h0f: "is_mat m ?nh (to_float ?h0)" by (rule is_mat_to_float [OF h0])
  have d1: "dot (to_float ?h0) (transpose_m (W r)) = Inr (matmul (to_float ?h0) (transpose_m (W r)))"
    by (rule dot_ok [OF h0f m WTm])
  note p1 = visible_prob_eq [OF wf h0f m]
  have s1: "sample_binary2 ?P1 ?g1 = Inr (?v1, ?g2)"
    by (simp add: spec_visible_prob_def [abs_def] sample_binary2_returns [OF tabulate2_sigmoid_probs])
  have v1: "is_mat m ?nv ?v1" by (rule is_mat_binomial2 [OF is_mat_tabulate2])
  have v1f: "is_mat m ?nv (to_float ?v1)" by (rule is_mat_to_float [OF v1])
  have d2: "dot (to_float ?v1) (W r) = Inr (matmul (to_float ?v1) (W r))"
    by (rule dot_ok [OF v1f m Wm])
  note p2 = hidden_prob_eq [OF wf v1f m]
  have h1: "is_mat m ?nh ?h1" by (rule is_mat_tabulate2)
  have d3: "dot (transpose_m ?v0) (to_float ?h0) = Inr ?pos"
    by (rule dot_ok [OF is_mat_transpose [OF v0 m] pos(2) h0f])
  have d4: "dot (transpose_m (to_float ?v1)) ?h1 = Inr ?neg"
    by (rule dot_ok [OF is_mat_transpose [OF v1f m] pos(2) h1])
  have eq: "cd1_batch r batch g = Inr (?r', ?g2)"
    unfolding cd1_batch_def Let_def d0 sum.case p0 s0 prod.case d1 p1 s1 d2 p2 d3 d4 ..
  have g2: "?g2 = g\<lparr>uniforms := sdrop (m * ?nv) (sdrop (m * ?nh) (uniforms g))\<rparr>"
    by (simp add: binomial2_rng sum_list_lengths [OF is_mat_tabulate2])
  have posm: "is_mat ?nv ?nh ?pos"
    using is_mat_matmul [OF h0f m, of "transpose_m ?v0"] is_mat_transpose [OF v0 m]
    by (simp add: is_mat_def)
  have negm: "is_mat ?nv ?nh ?neg"
    using is_mat_matmul [OF h1 m, of "transpose_m (to_float ?v1)"] is_mat_transpose [OF v1f m]
    by (simp add: is_mat_def)
  have dWm: "is_mat ?nv ?nh ?dW" by (rule is_mat_sub [OF posm negm])
  have sdW: "is_mat ?nv ?nh (map (map scale_step) ?dW)" by (rule is_mat_map [OF dWm])
  have W': "is_mat ?nv ?nh (W ?r')" using is_mat_add [OF Wm sdW] by simp
  have dv: "is_mat m ?nv (mat_sub ?v0 (to_float ?v1))" by (rule is_mat_sub [OF v0 v1f])
  have dh: "is_mat m ?nh (mat_sub (to_float ?h0) ?h1)" by (rule is_mat_sub [OF h0f h1])
  have ldv: "length ?dbv = ?nv" by (rule length_sum_axis0 [OF dv m])
  have ldh: "length ?dbh = ?nh" by (rule length_sum_axis0 [OF dh m])
  have wf': "wf_rbm ?r'"
    using W' pos ldv ldh by (simp add: wf_rbm_def)
  have lv0: "length ?v0 = m" "length (to_float ?h0) = m"
    using v0 h0f by (simp_all add: is_mat_def)
  have Wij: "W ?r' ! i ! j = W r ! i ! j
         + scale_step (spec_dW ?v0 (to_float ?h0) (to_float ?v1) (spec_hidden_prob r (to_float ?v1)) i j)"
    if ij: "i < ?nv" "j < ?nh" for i j
  proof -
    have "W ?r' ! i ! j = W r ! i ! j + map (map scale_step) ?dW ! i ! j"
      using mat_add_nth [OF Wm sdW ij] by simp
    also have "map (map scale_step) ?dW ! i ! j = scale_step (?dW ! i ! j)"
      using dWm ij by (simp add: is_mat_iff)
    also have "?dW ! i ! j = ?pos ! i ! j - ?neg ! i ! j"
      by (rule mat_sub_nth [OF posm negm ij])
    also have "?pos ! i ! j = (\<Sum>k<m. ?v0 ! k ! i * to_float ?h0 ! k ! j)"
      by (rule gradient_nth [OF v0 h0f m ij])
    also have "?neg ! i ! j = (\<Sum>k<m. to_float ?v1 ! k ! i * ?h1 ! k ! j)"
      by (rule gradient_nth [OF v1f h1 m ij])
    also have "\<dots> = (\<Sum>k<m. to_float ?v1 ! k ! i * spec_hidden_prob r (to_float ?v1) k j)"
      using ij by (intro sum.cong) (simp_all add: tabulate2_nth)
    finally show ?thesis by (simp add: spec_dW_def lv0)
  qed
  have bvi: "b_v ?r' ! i = b_v r ! i + scale_step (spec_db_v ?v0 (to_float ?v1) i)"
    if i: "i < ?nv" for i
  proof -
    have "b_v ?r' ! i = b_v r ! i + scale_step (?dbv ! i)"
      using i pos ldv by simp
    also have "?dbv ! i = (\<Sum>k<m. mat_sub ?v0 (to_float ?v1) ! k ! i)"
      by (rule sum_axis0_nth [OF dv m i])
    also have "\<dots> = (\<Sum>k<m. ?v0 ! k ! i - to_float ?v1 ! k ! i)"
      using mat_sub_nth [OF v0 v1f _ i] by (intro sum.cong) simp_all
    finally show ?thesis by (simp add: spec_db_v_def lv0)
  qed
  have bhj: "b_h ?r' ! j = b_h r ! j
         + scale_step (spec_db_h (to_float ?h0) (spec_hidden_prob r (to_float ?v1)) j)"
    if j: "j < ?nh" for j
  proof -
    have "b_h ?r' ! j = b_h r ! j + scale_step (?dbh ! j)"
      using j pos ldh by simp
    also have "?dbh ! j = (\<Sum>k<m. mat_sub (to_float ?h0) ?h1 ! k ! j)"
      by (rule sum_axis0_nth [OF dh m j])
    also have "\<dots> = (\<Sum>k<m. to_float ?h0 ! k ! j - spec_hidden_prob r (to_float ?v1) k j)"
      using mat_sub_nth [OF h0f h1 _ j] j by (intro sum.cong) (simp_all add: tabulate2_nth)
    finally show ?thesis by (simp add: spec_db_h_def lv0)
  qed
  show thesis
    by (rule that [OF s0 h0 s1 v1 eq g2 _ _ _ _ wf' Wij bvi bhj]) simp_all
qed

text \<open>
  Claim C3. In a batch iteration the sampler is called twice, on \<open>\<sigma>(v0\<cdot>W + b_h)\<close> and on
  \<open>\<sigma>(h0_sample\<cdot>W\<^sup>T + b_v)\<close>; the random state after the iteration is the state after
  these two calls, so \<open>h1 = \<sigma>(v1_sample\<cdot>W + b_h)\<close> is not sampled. The new parameters are
  \<open>W + learning_rate * dW / batch_size\<close>, \<open>b_v + learning_rate * db_v / batch_size\<close> and
  \<open>b_h + learning_rate * db_h / batch_size\<close> with
  \<open>dW = v0\<^sup>T\<cdot>h0_sample - v1_sample\<^sup>T\<cdot>h1\<close>, \<open>db_v\<close> the column sums of \<open>v0 - v1_sample\<close> and
  \<open>db_h\<close> the column sums of \<open>h0_sample - h1\<close>.
\<close>

theorem cd1_batch_h1_probability_and_updates:
  assumes "wf_rbm r" and "is_mat m (n_observe r) batch" and "0 < m"
  shows "\<exists>h0 g1 v1 g2 r'.
      sample_binary2 (tabulate2 m (n_hidden r) (spec_hidden_prob r (to_float batch))) g = Inr (h0, g1)
    \<and> sample_binary2 (tabulate2 m (n_observe r) (spec_visible_prob r (to_float h0))) g1 = Inr (v1, g2)
    \<and> cd1_batch r batch g = Inr (r', g2)
    \<and> uniforms g2 = sdrop (m * n_observe r) (sdrop (m * n_hidden r) (uniforms g))
    \<and> (\<forall>i<n_observe r. \<forall>j<n_hidden r.
          W r' ! i ! j = W r ! i ! j
            + learning_rate * spec_dW (to_float batch) (to_float h0) (to_float v1)
                                (spec_hidden_prob r (to_float v1)) i j / real batch_size)
    \<and> (\<forall>i<n_observe r.
          b_v r' ! i = b_v r ! i
            + learning_rate * spec_db_v (to_float batch) (to_float v1) i / real batch_size)
    \<and> (\<forall>j<n_hidden r.
          b_h r' ! j = b_h r ! j
            + learning_rate * spec_db_h (to_float h0) (spec_hidden_prob r (to_float v1)) j
                / real batch_size)"
proof (rule cd1_batch_spec [OF assms, of g])
  fix h0 g1 v1 g2 r'
  assume s0: "sample_binary2 (tabulate2 m (n_hidden r) (spec_hidden_prob r (to_float batch))) g = Inr (h0, g1)"
    and s1: "sample_binary2 (tabulate2 m (n_observe r) (spec_visible_prob r (to_float h0))) g1 = Inr (v1, g2)"
    and eq: "cd1_batch r batch g = Inr (r', g2)"
    and g2: "g2 = g\<lparr>uniforms := sdrop (m * n_observe r) (sdrop (m * n_hidden r) (uniforms g))\<rparr>"
    and Wij: "\<And>i j. i < n_observe r \<Longrightarrow> j < n_hidden r \<Longrightarrow>
       W r' ! i ! j = W r ! i ! j
         + scale_step (spec_dW (to_float batch) (to_float h0) (to_float v1)
                          (spec_hidden_prob r (to_float v1)) i j)"
    and bvi: "\<And>i. i < n_observe r \<Longrightarrow>
       b_v r' ! i = b_v r ! i + scale_step (spec_db_v (to_float batch) (to_float v1) i)"
    and bhj: "\<And>j. j < n_hidden r \<Longrightarrow>
       b_h r' ! j = b_h r ! j
         + scale_step (spec_db_h (to_float h0) (spec_hidden_prob r (to_float v1)) j)"
  have u: "uniforms g2 = sdrop (m * n_observe r) (sdrop (m * n_hidden r) (uniforms g))"
    by (simp add: g2 del: sdrop_add)
  have W': "\<forall>i<n_observe r. \<forall>j<n_hidden r.
          W r' ! i ! j = W r ! i ! j
            + learning_rate * spec_dW (to_float batch) (to_float h0) (to_float v1)
                                (spec_hidden_prob r (to_float v1)) i j / real batch_size"
    using Wij by (simp add: scale_step_def)
  have bv': "\<forall>i<n_observe r.
          b_v r' ! i = b_v r ! i
            + learning_rate * spec_db_v (to_float batch) (to_float v1) i / real batch_size"
    using bvi by (simp add: scale_step_def)
  have bh': "\<forall>j<n_hidden r.
          b_h r' ! j = b_h r ! j
            + learning_rate * spec_db_h (to_float h0) (spec_hidden_prob r (to_float v1)) j
                / real batch_size"
    using bhj by (simp add: scale_step_def)
  show ?thesis
    by (rule exI [of _ h0], rule exI [of _ g1], rule exI [of _ v1], rule exI [of _ g2],
        rule exI [of _ r'], intro conjI) (fact s0 s1 eq u W' bv' bh')+
qed

theorem cd1_batch_h1_probability_and_updates_witness:
  "wf_rbm rbm_2_4 \<and> is_mat 1 (n_observe rbm_2_4) [[1, 0, 1, 0 :: int]] \<and> (0::nat) < 1
   \<and> (\<exists>r' g2. cd1_batch rbm_2_4 [[1, 0, 1, 0]] rng0 = Inr (r', g2)
         \<and> uniforms g2 = sdrop (1 * n_observe rbm_2_4) (sdrop (1 * n_hidden rbm_2_4) (uniforms rng0)))"
proof -
  have b: "is_mat 1 (n_observe rbm_2_4) [[1, 0, 1, 0 :: int]]"
    by (simp add: is_mat_def rbm_2_4_def)
  from cd1_batch_h1_probability_and_updates [OF wf_rbm_2_4 b, of rng0]
  obtain r' g2 where "cd1_batch rbm_2_4 [[1, 0, 1, 0]] rng0 = Inr (r', g2)"
    "uniforms g2 = sdrop (1 * n_observe rbm_2_4) (sdrop (1 * n_hidden rbm_2_4) (uniforms rng0))"
    by auto
  then have "\<exists>r' g2. cd1_batch rbm_2_4 [[1, 0, 1, 0]] rng0 = Inr (r', g2)
         \<and> uniforms g2 = sdrop (1 * n_observe rbm_2_4) (sdrop (1 * n_hidden rbm_2_4) (uniforms rng0))"
    by (intro exI [of _ r'] exI [of _ g2] conjI)
  with wf_rbm_2_4 b show ?thesis by simp
qed

subsection \<open>Shuffling\<close>

lemma mset_swap_rows:
  "i < length xs \<Longrightarrow> j < length xs \<Longrightarrow> mset (swap_rows i j xs) = mset xs"
  by (simp add: swap_rows_def mset_swap)

lemma length_swap_rows [simp]: "length (swap_rows i j xs) = length xs"
  by (simp add: swap_rows_def)

lemma mset_shuffle_from:
  "k < length xs \<or> k = 0 \<Longrightarrow> mset (fst (shuffle_from k xs s)) = mset xs"
proof (induction k arbitrary: xs s)
  case 0
  then show ?case by simp
next
  case (Suc k)
  then have k: "Suc k < length xs" by simp
  have "shd s mod (Suc k + 1) < Suc k + 1" by (rule mod_less_divisor) simp
  with k have j: "shd s mod (Suc k + 1) < length xs" by linarith
  have "mset (fst (shuffle_from k (swap_rows (Suc k) (shd s mod (Suc k + 1)) xs) (stl s)))
          = mset (swap_rows (Suc k) (shd s mod (Suc k + 1)) xs)"
    using k by (intro Suc.IH) simp
  with mset_swap_rows [OF k j] show ?case by simp
qed

lemma mset_shuffles: "mset (fst (shuffle_epochs k xs s)) = mset xs"
proof (induction k arbitrary: xs s)
  case 0
  then show ?case by simp
next
  case (Suc k)
  obtain ys s' where sh: "shuffle_from (length xs - 1) xs s = (ys, s')"
    by (cases "shuffle_from (length xs - 1) xs s")
  have "mset ys = mset xs"
    using mset_shuffle_from [of "length xs - 1" xs s] sh by (cases xs) auto
  with Suc [of ys s'] sh show ?case by simp
qed

lemma is_mat_mset: "mset ys = mset xs \<Longrightarrow> is_mat n k xs \<Longrightarrow> is_mat n k ys"
  using mset_eq_length [of ys xs] mset_eq_setD [of ys xs]
  by (simp add: is_mat_def list_all_iff)

lemma shuffle_eq:
  "shuffle xs g = (fst (shuffle_from (length xs - 1) xs (integers g)),
                   g\<lparr>integers := snd (shuffle_from (length xs - 1) xs (integers g))\<rparr>)"
  by (simp add: shuffle_def case_prod_beta)

subsection \<open>The loops of train\<close>

lemma is_mat_slice:
  assumes "is_mat n k rows" "i < n"
  shows "is_mat (min b (n - i)) k (take b (drop i rows))"
proof -
  have "set (take b (drop i rows)) \<subseteq> set rows"
    by (meson order_trans set_drop_subset set_take_subset)
  with assms show ?thesis
    by (auto simp: is_mat_def list_all_iff min.commute)
qed

lemma batch_loop_ok:
  "wf_rbm r \<Longrightarrow> is_mat n (n_observe r) rows \<Longrightarrow>
     \<exists>r' g'. batch_loop i n rows r g = Inr (r', g') \<and> wf_rbm r'
        \<and> n_hidden r' = n_hidden r \<and> n_observe r' = n_observe r
        \<and> Wv r' = Wv r \<and> Wh r' = Wh r
        \<and> integers g' = integers g \<and> normals g' = normals g"
proof (induction i n rows r g rule: batch_loop.induct)
  case (1 i n rows r g)
  show ?case
  proof (cases "i < n")
    case False
    with "1.prems"(1) show ?thesis by (subst batch_loop.simps) simp
  next
    case True
    let ?batch = "take batch_size (drop i rows)"
    have b: "is_mat (min batch_size (n - i)) (n_observe r) ?batch"
      by (rule is_mat_slice [OF "1.prems"(2) True])
    have p: "0 < min batch_size (n - i)"
      using True by (simp add: batch_size_def)
    obtain r1 g1 where
      c: "cd1_batch r ?batch g = Inr (r1, g1)" and w: "wf_rbm r1"
      and n: "n_hidden r1 = n_hidden r" "n_observe r1 = n_observe r" "Wv r1 = Wv r" "Wh r1 = Wh r"
      and g: "integers g1 = integers g" "normals g1 = normals g"
    proof (rule cd1_batch_spec [OF "1.prems"(1) b p, of g])
      fix h0 ga v1 g2 r'
      assume "cd1_batch r ?batch g = Inr (r', g2)"
        "g2 = g\<lparr>uniforms := sdrop (min batch_size (n - i) * n_observe r)
                 (sdrop (min batch_size (n - i) * n_hidden r) (uniforms g))\<rparr>"
        "n_hidden r' = n_hidden r" "n_observe r' = n_observe r" "Wv r' = Wv r" "Wh r' = Wh r"
        "wf_rbm r'"
      then show thesis by (intro that [of r' g2]) simp_all
    qed
    have "is_mat n (n_observe r1) rows" using "1.prems"(2) n by simp
    from "1.IH" [OF True c refl w this] obtain r' g' where
      l: "batch_loop (i + batch_size) n rows r1 g1 = Inr (r', g')" and w': "wf_rbm r'"
      and n': "n_hidden r' = n_hidden r1" "n_observe r' = n_observe r1"
        "Wv r' = Wv r1" "Wh r' = Wh r1"
      and g': "integers g' = integers g1" "normals g' = normals g1"
      by blast
    have "batch_loop i n rows r g = Inr (r', g')"
      by (subst batch_loop.simps) (simp add: True c l)
    with w' n n' g g' show ?thesis by simp
  qed
qed

lemma epoch_loop_ok:
  "wf_rbm r \<Longrightarrow> is_mat n (n_observe r) (st (addr df)) \<Longrightarrow>
     \<exists>r' g'. epoch_loop k df n r st g
                 = Inr (r', st(addr df := fst (shuffle_epochs k (st (addr df)) (integers g))), g')
        \<and> wf_rbm r' \<and> n_hidden r' = n_hidden r \<and> n_observe r' = n_observe r"
proof (induction k arbitrary: r st g)
  case 0
  then show ?case by simp
next
  case (Suc k)
  let ?a = "addr df"
  let ?ys = "fst (shuffle_from (length (st ?a) - 1) (st ?a) (integers g))"
  let ?s = "snd (shuffle_from (length (st ?a) - 1) (st ?a) (integers g))"
  let ?g1 = "g\<lparr>integers := ?s\<rparr>"
  let ?st1 = "st(?a := ?ys)"
  have sh: "shuffle (st ?a) g = (?ys, ?g1)" by (rule shuffle_eq)
  have "mset ?ys = mset (st ?a)"
    using mset_shuffle_from [of "length (st ?a) - 1" "st ?a" "integers g"]
    by (cases "st ?a") auto
  then have ys: "is_mat n (n_observe r) ?ys"
    using Suc.prems(2) by (rule is_mat_mset)
  from batch_loop_ok [OF Suc.prems(1) ys, of 0 ?g1] obtain r1 g2 where
    l: "batch_loop 0 n ?ys r ?g1 = Inr (r1, g2)" and w: "wf_rbm r1"
    and n: "n_hidden r1 = n_hidden r" "n_observe r1 = n_observe r"
    and g: "integers g2 = integers ?g1"
    by blast
  have "is_mat n (n_observe r1) (?st1 ?a)" using ys n by simp
  from Suc.IH [of r1 ?st1 g2, OF w this] obtain r' g' where
    e: "epoch_loop k df n r1 ?st1 g2
          = Inr (r', ?st1(?a := fst (shuffle_epochs k (?st1 ?a) (integers g2))), g')"
    and w': "wf_rbm r'" and n': "n_hidden r' = n_hidden r1" "n_observe r' = n_observe r1"
    by blast
  have step: "epoch_loop (Suc k) df n r st g = epoch_loop k df n r1 ?st1 g2"
    unfolding epoch_loop.simps sh Let_def prod.case fun_upd_same l sum.case ..
  have fin: "?st1(?a := fst (shuffle_epochs k (?st1 ?a) (integers g2)))
               = st(?a := fst (shuffle_epochs (Suc k) (st ?a) (integers g)))"
    using g by (simp add: case_prod_beta)
  have eq: "epoch_loop (Suc k) df n r st g
          = Inr (r', st(?a := fst (shuffle_epochs (Suc k) (st ?a) (integers g))), g')"
    unfolding step e fin ..
  have "n_hidden r' = n_hidden r" "n_observe r' = n_observe r"
    using n n' by simp_all
  with eq w' show ?case by blast
qed

lemma train_ok:
  assumes wf: "wf_rbm r" and d: "wf_data st d" and n: "0 < hd (shape d)"
    and w: "prod_list (tl (shape d)) = n_observe r"
  shows "\<exists>r' g'. train r st d g
                 = Inr (r', st(addr d := fst (shuffle_epochs epochs (st (addr d)) (integers g))), g')
        \<and> wf_rbm r' \<and> n_hidden r' = n_hidden r \<and> n_observe r' = n_observe r"
proof -
  obtain k rest where s: "shape d = k # rest" using d by (cases "shape d") (auto simp: wf_data_def)
  let ?df = "d\<lparr>shape := [k, prod_list rest]\<rparr>"
  have r: "reshape_rows d = Inr ?df" using s n by (simp add: reshape_rows_def)
  have m: "is_mat k (n_observe r) (st (addr ?df))"
    using d s w by (simp add: wf_data_def)
  from epoch_loop_ok [where r = r and n = k and st = st and df = ?df and k = epochs and g = g,
      OF wf m] show ?thesis
    by (simp add: train_def r)
qed

lemma epochs_Suc: "epochs = Suc (Suc (Suc (Suc (Suc (Suc (Suc (Suc (Suc (Suc 0)))))))))"
  by (simp add: epochs_def)

lemma shuffles_store_3:
  "fst (shuffle_epochs epochs [[1], [0], [0 :: int]] (sconst 0)) = [[0], [0], [1]]"
  unfolding epochs_Suc by (simp add: swap_rows_def)

lemma wf_rbm_1_1: "wf_rbm rbm_1_1"
  by (simp add: wf_rbm_def rbm_1_1_def is_mat_def)

lemma wf_data_3: "wf_data store_3 data_3"
  by (simp add: wf_data_def store_3_def data_3_def is_mat_def)

text \<open>
  Claim C2 as stated fails: \<^verbatim>\<open>train\<close> shuffle_epochs \<^verbatim>\<open>data_flat\<close>, a view of the caller's array,
  in place. The three samples 1, 0, 0 are 0, 0, 1 after the call.
\<close>

theorem train_reorders_callers_data:
  "store_3 (addr data_3) = [[1], [0], [0]]
   \<and> final_buffer (train rbm_1_1 store_3 data_3 rng0) (addr data_3) = Some [[0], [0], [1]]"
proof -
  have n: "0 < hd (shape data_3)" "prod_list (tl (shape data_3)) = n_observe rbm_1_1"
    by (simp_all add: data_3_def rbm_1_1_def)
  from train_ok [OF wf_rbm_1_1 wf_data_3 n, of rng0] obtain r' g' where
    "train rbm_1_1 store_3 data_3 rng0
       = Inr (r', store_3(addr data_3 := fst (shuffle_epochs epochs (store_3 (addr data_3)) (integers rng0))), g')"
    by blast
  moreover have "store_3 (addr data_3) = [[1], [0], [0]]"
    by (simp add: store_3_def data_3_def)
  moreover have "integers rng0 = sconst 0" by (simp add: rng0_def)
  ultimately show ?thesis
    by (simp add: final_buffer_def shuffles_store_3)
qed

text \<open>
  Claim C2, as the code has it. For a model of the right shapes and a C-contiguous data
  array with at least one sample whose flattened width is \<open>n_observe\<close>, \<^verbatim>\<open>train\<close> returns;
  the caller's array then holds the result of the ten in-place shuffles of its samples:
  the same samples with the same multiplicities, in a permuted order. No other array of
  the store is changed.
\<close>

theorem train_permutes_callers_data:
  assumes "wf_rbm r" and "wf_data st d" and "0 < hd (shape d)"
    and "prod_list (tl (shape d)) = n_observe r"
  shows "\<exists>r' st' g'. train r st d g = Inr (r', st', g')
     \<and> st' (addr d) = fst (shuffle_epochs epochs (st (addr d)) (integers g))
     \<and> mset (st' (addr d)) = mset (st (addr d))
     \<and> (\<forall>a. a \<noteq> addr d \<longrightarrow> st' a = st a)"
proof -
  from train_ok [OF assms, of g] obtain r' g' where
    t: "train r st d g
       = Inr (r', st(addr d := fst (shuffle_epochs epochs (st (addr d)) (integers g))), g')"
    by blast
  show ?thesis
    by (rule exI [of _ r'],
        rule exI [of _ "st(addr d := fst (shuffle_epochs epochs (st (addr d)) (integers g)))"],
        rule exI [of _ g']) (simp add: t mset_shuffles)
qed

theorem train_permutes_callers_data_witness:
  "wf_rbm rbm_1_1 \<and> wf_data store_3 data_3 \<and> 0 < hd (shape data_3)
   \<and> prod_list (tl (shape data_3)) = n_observe rbm_1_1
   \<and> (\<exists>r' st' g'. train rbm_1_1 store_3 data_3 rng0 = Inr (r', st', g')
         \<and> mset (st' (addr data_3)) = mset (store_3 (addr data_3)))"
proof -
  have n: "0 < hd (shape data_3)" "prod_list (tl (shape data_3)) = n_observe rbm_1_1"
    by (simp_all add: data_3_def rbm_1_1_def)
  from train_permutes_callers_data [OF wf_rbm_1_1 wf_data_3 n, of rng0] obtain r' st' g' where
    "train rbm_1_1 store_3 data_3 rng0 = Inr (r', st', g')"
    "mset (st' (addr data_3)) = mset (store_3 (addr data_3))"
    by blast
  then have "\<exists>r' st' g'. train rbm_1_1 store_3 data_3 rng0 = Inr (r', st', g')
         \<and> mset (st' (addr data_3)) = mset (store_3 (addr data_3))"
    by (intro exI [of _ r'] exI [of _ st'] exI [of _ g'] conjI)
  with wf_rbm_1_1 wf_data_3 n show ?thesis by simp
qed

text \<open>
  Claim C9. \<^verbatim>\<open>train\<close>, on data whose flattened width is \<open>n_observe\<close>, returns a model with
  the same \<open>n_hidden\<close> and \<open>n_observe\<close>, \<open>W\<close> of shape \<open>(n_observe, n_hidden)\<close>, \<open>b_v\<close> of length
  \<open>n_observe\<close> and \<open>b_h\<close> of length \<open>n_hidden\<close>. \<^verbatim>\<open>sample\<close> assigns no field: it is a function
  of the model that returns an image and the random state, and the model after the
  call is the model before it.
\<close>

theorem train_keeps_shapes:
  assumes "wf_rbm r" and "wf_data st d" and "0 < hd (shape d)"
    and "prod_list (tl (shape d)) = n_observe r"
  shows "\<exists>r' st' g'. train r st d g = Inr (r', st', g')
     \<and> n_hidden r' = n_hidden r \<and> n_observe r' = n_observe r
     \<and> length (W r') = n_observe r \<and> (\<forall>row\<in>set (W r'). length row = n_hidden r)
     \<and> length (b_v r') = n_observe r \<and> length (b_h r') = n_hidden r"
proof -
  from train_ok [OF assms, of g] obtain r' g' where
    t: "train r st d g
       = Inr (r', st(addr d := fst (shuffle_epochs epochs (st (addr d)) (integers g))), g')"
    and w: "wf_rbm r'" and n: "n_hidden r' = n_hidden r" "n_observe r' = n_observe r"
    by blast
  from w n have "length (W r') = n_observe r \<and> (\<forall>row\<in>set (W r'). length row = n_hidden r)
     \<and> length (b_v r') = n_observe r \<and> length (b_h r') = n_hidden r"
    by (simp add: wf_rbm_def is_mat_def list_all_iff)
  with t n show ?thesis by blast
qed

theorem train_keeps_shapes_witness:
  "wf_rbm rbm_1_1 \<and> wf_data store_3 data_3 \<and> 0 < hd (shape data_3)
   \<and> prod_list (tl (shape data_3)) = n_observe rbm_1_1
   \<and> (\<exists>r' st' g'. train rbm_1_1 store_3 data_3 rng0 = Inr (r', st', g')
         \<and> n_hidden r' = 1 \<and> n_observe r' = 1 \<and> length (W r') = 1
         \<and> length (b_v r') = 1 \<and> length (b_h r') = 1)"
proof -
  have n: "0 < hd (shape data_3)" "prod_list (tl (shape data_3)) = n_observe rbm_1_1"
    by (simp_all add: data_3_def rbm_1_1_def)
  have v: "n_hidden rbm_1_1 = 1" "n_observe rbm_1_1 = 1" by (simp_all add: rbm_1_1_def)
  from train_keeps_shapes [OF wf_rbm_1_1 wf_data_3 n, of rng0] obtain r' st' g' where
    "train rbm_1_1 store_3 data_3 rng0 = Inr (r', st', g')"
    "n_hidden r' = 1" "n_observe r' = 1" "length (W r') = 1"
    "length (b_v r') = 1" "length (b_h r') = 1"
    unfolding v by blast
  then have "\<exists>r' st' g'. train rbm_1_1 store_3 data_3 rng0 = Inr (r', st', g')
         \<and> n_hidden r' = 1 \<and> n_observe r' = 1 \<and> length (W r') = 1
         \<and> length (b_v r') = 1 \<and> length (b_h r') = 1"
    by (intro exI [of _ r'] exI [of _ st'] exI [of _ g'] conjI)
  with wf_rbm_1_1 wf_data_3 n show ?thesis by simp
qed




end
